theory Spec2Isabelle
  imports Main
begin

unbundle bit_operations_syntax

section \<open>JavaScript values, errors and the environment of the two modules\<close>

text \<open>
  react-keydown keeps its bookkeeping in two modules that implement the same idea twice:
  \<^verbatim>\<open>listeners\<close> (a map from class prototypes to bindings and instances, and a single
  focused pointer) and \<^verbatim>\<open>store\<close> (two flat arrays scanned linearly). Both are
  embedded here, function by function.

  Objects are references; the values that reach the modules as ``an instance'' are
  \<^verbatim>\<open>undefined\<close>, \<^verbatim>\<open>null\<close> or an object.
\<close>

type_synonym ref = nat

datatype jsval = Undefined | Null | Obj ref

text \<open>The two exceptions the modules can raise.\<close>

datatype error = TypeError | ReferenceError

text \<open>What a function that may give back \<^verbatim>\<open>null\<close> or nothing at all returns.\<close>

datatype 'a nullable = IsNull | IsUndefined | Val 'a

text \<open>\<^verbatim>\<open>a == b\<close> on these values: objects by identity, \<^verbatim>\<open>null == undefined\<close>.\<close>

fun loose_eq :: "jsval \<Rightarrow> jsval \<Rightarrow> bool" where
  "loose_eq (Obj a) (Obj b) = (a = b)"
| "loose_eq (Obj a) _ = False"
| "loose_eq _ (Obj b) = False"
| "loose_eq _ _ = True"

text \<open>\<^verbatim>\<open>a === b\<close>.\<close>

definition strict_eq :: "jsval \<Rightarrow> jsval \<Rightarrow> bool" where
  "strict_eq a b = (a = b)"

text \<open>Truthiness of an instance value and of a string-or-undefined property value.\<close>

fun truthy :: "jsval \<Rightarrow> bool" where
  "truthy (Obj _) = True"
| "truthy _ = False"

fun truthy_str :: "string option \<Rightarrow> bool" where
  "truthy_str None = False"
| "truthy_str (Some u) = (u \<noteq> [])"

text \<open>\<^verbatim>\<open>xs[i]\<close> on an array of instance values: \<^verbatim>\<open>undefined\<close> out of range.\<close>

definition at_js :: "jsval list \<Rightarrow> nat \<Rightarrow> jsval" where
  "at_js xs i = (if i < length xs then xs ! i else Undefined)"

text \<open>
  A keydown event, as far as the modules read it: the tag name of its target, and the
  key information that only \<^verbatim>\<open>matchKeys\<close> looks at.
\<close>

record 'w event =
  tagName :: string
  keyInfo :: 'w

text \<open>
  A key-set value as the store holds it: an array of key descriptors, or the value
  that is not an array which \<^verbatim>\<open>allKeys()\<close> may produce.
\<close>

datatype 'd keysets = KeyArr "'d list" | Marker

text \<open>
  The code the two modules import and the host they run on. \<^verbatim>\<open>lib/parse_keys\<close>,
  \<^verbatim>\<open>lib/match_keys\<close>, \<^verbatim>\<open>lib/keys\<close> and \<^verbatim>\<open>lib/uuid\<close> are not among the sources,
  so they are parameters: \<^verbatim>\<open>parseKeys\<close> returns a new array of descriptors,
  \<^verbatim>\<open>matchKeys\<close> a truth value or an exception, \<^verbatim>\<open>allKeys()\<close> some key-set value,
  \<^verbatim>\<open>allKeys(x)\<close> a truth value, and the \<open>n\<close>-th call of \<^verbatim>\<open>uuid()\<close> a string.
  The host gives the prototype chain of each object (nearest first, the object itself
  excluded), \<^verbatim>\<open>o.constructor.prototype\<close>, \<^verbatim>\<open>React.findDOMNode\<close>,
  \<^verbatim>\<open>node.contains\<close>, whether \<^verbatim>\<open>document.querySelectorAll\<close> exists, and the
  focusable descendants \<^verbatim>\<open>node.querySelectorAll(...)\<close> finds.
\<close>

record ('k, 'd, 'w, 'n) env =
  parseKeys :: "'k \<Rightarrow> 'd list"
  matchKeys :: "'d option \<Rightarrow> 'w event \<Rightarrow> error + bool"
  allKeys0 :: "'d keysets"
  allKeys1 :: "'d keysets \<Rightarrow> bool"
  uuid :: "nat \<Rightarrow> string"
  protoChain :: "ref \<Rightarrow> ref list"
  classProto :: "ref \<Rightarrow> ref"
  findDOMNode :: "ref \<Rightarrow> 'n option"
  contains :: "'n \<Rightarrow> 'n \<Rightarrow> bool"
  hasQuerySelectorAll :: bool
  focusables :: "'n \<Rightarrow> 'n list"

text \<open>\<^verbatim>\<open>arr.some(p)\<close> where \<open>p\<close> may throw: stops at the first hit or exception.\<close>

fun some_js :: "('a \<Rightarrow> error + bool) \<Rightarrow> 'a list \<Rightarrow> error + bool" where
  "some_js p [] = Inr False"
| "some_js p (x # xs) =
     (case p x of
        Inl e \<Rightarrow> Inl e
      | Inr True \<Rightarrow> Inr True
      | Inr False \<Rightarrow> some_js p xs)"


section \<open>The store module (src/store.js and its commented twin)\<close>

text \<open>One element of \<^verbatim>\<open>_handlers2\<close>: the object literal \<^verbatim>\<open>{ targetUuid, keySets, fn }\<close>.\<close>

record ('d, 'f) hand =
  targetUuid :: "string option"
  keySets :: "'d keysets"
  fn :: 'f

text \<open>
  The module's state: the two arrays, the own property \<^verbatim>\<open>__reactKeydownUUID\<close> of
  every object (\<open>None\<close>: the object has none), and how often \<^verbatim>\<open>uuid()\<close> was called.
\<close>

record ('d, 'f) store =
  handlers2 :: "('d, 'f) hand list"
  instances2 :: "jsval list"
  ownUUID :: "ref \<Rightarrow> string option"
  uuidCalls :: nat

definition emptyStore :: "('d, 'f) store" where
  "emptyStore = \<lparr>handlers2 = [], instances2 = [], ownUUID = (\<lambda>_. None), uuidCalls = 0\<rparr>"

text \<open>\<^verbatim>\<open>_resetStore\<close>: both arrays are spliced empty.\<close>

definition resetStore :: "('d, 'f) store \<Rightarrow> ('d, 'f) store" where
  "resetStore s = s\<lparr>handlers2 := drop (length (handlers2 s)) (handlers2 s),
                    instances2 := drop (length (instances2 s)) (instances2 s)\<rparr>"

text \<open>
  Reading \<^verbatim>\<open>o.__reactKeydownUUID\<close>: the first own property found on the object or
  along its prototype chain, \<^verbatim>\<open>undefined\<close> when there is none.
\<close>

fun firstOwn :: "(ref \<Rightarrow> string option) \<Rightarrow> ref list \<Rightarrow> string option" where
  "firstOwn own [] = None"
| "firstOwn own (p # ps) = (case own p of Some u \<Rightarrow> Some u | None \<Rightarrow> firstOwn own ps)"

definition readUUID :: "('k, 'd, 'w, 'n) env \<Rightarrow> ('d, 'f) store \<Rightarrow> ref \<Rightarrow> string option" where
  "readUUID E s r = firstOwn (ownUUID s) (r # protoChain E r)"

text \<open>
  The loop \<^verbatim>\<open>let i = _instances2.length; while (i--) { if (_instances2[i] == x) _instances2.pop(); }\<close>
  that \<^verbatim>\<open>activate\<close> and \<^verbatim>\<open>deleteInstance\<close> share. The counter argument is \<open>i\<close>
  before the test of \<^verbatim>\<open>while (i--)\<close>; the body sees \<open>i - 1\<close>. \<^verbatim>\<open>pop()\<close> removes
  the last element, whatever the index that matched.
\<close>

fun popLoop :: "jsval \<Rightarrow> nat \<Rightarrow> jsval list \<Rightarrow> jsval list" where
  "popLoop x 0 xs = xs"
| "popLoop x (Suc i) xs = popLoop x i (if loose_eq (at_js xs i) x then butlast xs else xs)"

text \<open>The argument of \<^verbatim>\<open>activate\<close>: one value, or an array that \<^verbatim>\<open>[].concat\<close> spreads.\<close>

datatype instances_arg = One jsval | Many "jsval list"

fun concat_empty :: "instances_arg \<Rightarrow> jsval list" where
  "concat_empty (One x) = [x]"
| "concat_empty (Many xs) = xs"

definition activateOne :: "jsval list \<Rightarrow> jsval \<Rightarrow> jsval list" where
  "activateOne xs instance = popLoop instance (length xs) xs @ [instance]"

definition activate :: "instances_arg \<Rightarrow> ('d, 'f) store \<Rightarrow> ('d, 'f) store" where
  "activate instances s =
     (let instancesArray = concat_empty instances in
      if length instancesArray = 0 then s
      else s\<lparr>instances2 := foldl activateOne (instances2 s) instancesArray\<rparr>)"

text \<open>
  The names the store module can resolve: its own declarations and its imports.
  \<^verbatim>\<open>deleteInstance\<close> starts with \<^verbatim>\<open>_instances.delete( target )\<close>, and
  \<^verbatim>\<open>_instances\<close> is declared nowhere (its declaration survives only as a comment
  in the twin file), so evaluating it raises a ReferenceError before the loop runs.
\<close>

definition storeScope :: "string list" where
  "storeScope = [''allKeys'', ''matchKeys'', ''parseKeys'', ''uuid'', ''Immutable'',
                 ''_handlers2'', ''_instances2'', ''_resetStore'', ''Store'']"

definition deleteInstance :: "jsval \<Rightarrow> ('d, 'f) store \<Rightarrow> (error + unit) \<times> ('d, 'f) store" where
  "deleteInstance target s =
     (if ''_instances'' \<in> set storeScope
      then (Inr (), s\<lparr>instances2 := popLoop target (length (instances2 s)) (instances2 s)\<rparr>)
      else (Inl ReferenceError, s))"

text \<open>
  \<^verbatim>\<open>getBinding\<close>: the parameter pattern \<^verbatim>\<open>{ __reactKeydownUUID }\<close> throws on
  \<^verbatim>\<open>null\<close> and \<^verbatim>\<open>undefined\<close>; the array \<^verbatim>\<open>_handlers2\<close> is always truthy; the
  scan runs from the last handler down and returns at the first one whose
  \<^verbatim>\<open>targetUuid\<close> equals the target's, as a one-element list of pairs; falling out of
  the loop returns nothing.
\<close>

fun getBindingLoop ::
  "string option \<Rightarrow> nat \<Rightarrow> ('d, 'f) hand list \<Rightarrow> error + ('d keysets \<times> 'f) list nullable" where
  "getBindingLoop u 0 hs = Inr IsUndefined"
| "getBindingLoop u (Suc i) hs =
     (if i < length hs then
        (let instance = hs ! i in
         if targetUuid instance = u then Inr (Val [(keySets instance, fn instance)])
         else getBindingLoop u i hs)
      else Inl TypeError)"

definition getBinding ::
  "('k, 'd, 'w, 'n) env \<Rightarrow> ('d, 'f) store \<Rightarrow> jsval \<Rightarrow> error + ('d keysets \<times> 'f) list nullable" where
  "getBinding E s target =
     (case target of
        Obj r \<Rightarrow>
          (let u = readUUID E s r in
           if \<not> truthy_str u then Inr IsNull
           else getBindingLoop u (length (handlers2 s)) (handlers2 s))
      | _ \<Rightarrow> Inl TypeError)"

text \<open>\<^verbatim>\<open>getInstances\<close>.\<close>

definition getInstances :: "('d, 'f) store \<Rightarrow> jsval list" where
  "getInstances s = instances2 s"

text \<open>
  Reading a number off a plain array: \<^verbatim>\<open>length\<close> is its number of elements, and
  an array has no other numeric property; \<^verbatim>\<open>size\<close> is what a \<^verbatim>\<open>Set\<close> or a
  \<^verbatim>\<open>Map\<close> has, and on an array the read gives \<^verbatim>\<open>undefined\<close> (\<open>None\<close>).
  \<^verbatim>\<open>isEmpty\<close> negates the truthiness of \<^verbatim>\<open>_instances2.size\<close>.
\<close>

definition arrayProp :: "string \<Rightarrow> 'a list \<Rightarrow> nat option" where
  "arrayProp name xs = (if name = ''length'' then Some (length xs) else None)"

fun truthy_num :: "nat option \<Rightarrow> bool" where
  "truthy_num None = False"
| "truthy_num (Some n) = (n \<noteq> 0)"

definition isEmpty :: "('d, 'f) store \<Rightarrow> bool" where
  "isEmpty s = (\<not> truthy_num (arrayProp ''size'' (instances2 s)))"

text \<open>
  \<^verbatim>\<open>setBinding\<close>: \<open>keys\<close> is \<open>None\<close> for a falsy \<^verbatim>\<open>keys\<close> argument. Both branches
  push the same record; the first one gives the target its identifier before.
\<close>

definition setBinding ::
  "('k, 'd, 'w, 'n) env \<Rightarrow> 'k option \<Rightarrow> 'f \<Rightarrow> ref \<Rightarrow> ('d, 'f) store \<Rightarrow> ('d, 'f) store" where
  "setBinding E keys f target s =
     (let ks = (case keys of Some k \<Rightarrow> KeyArr (parseKeys E k) | None \<Rightarrow> allKeys0 E) in
      if \<not> truthy_str (readUUID E s target) then
        (let s1 = s\<lparr>ownUUID := (ownUUID s)(target := Some (uuid E (uuidCalls s))),
                    uuidCalls := Suc (uuidCalls s)\<rparr>;
             hand = \<lparr>targetUuid = readUUID E s1 target, keySets = ks, fn = f\<rparr>
         in s1\<lparr>handlers2 := handlers2 s1 @ [hand]\<rparr>)
      else
        (let hand = \<lparr>targetUuid = readUUID E s target, keySets = ks, fn = f\<rparr>
         in s\<lparr>handlers2 := handlers2 s @ [hand]\<rparr>))"

text \<open>
  \<^verbatim>\<open>findBindingForEvent\<close>. For one instance, the body of the outer loop: fetch its
  bindings (iterating \<^verbatim>\<open>null\<close> or \<^verbatim>\<open>undefined\<close> with \<^verbatim>\<open>for ... of\<close> throws)
  and return the callback of the first pair whose key-sets are ``all keys'' or hold a
  set that matches the event. Calling \<^verbatim>\<open>.some\<close> on a value that is not an array throws.
\<close>

definition keySetsMatch ::
  "('k, 'd, 'w, 'n) env \<Rightarrow> 'w event \<Rightarrow> 'd keysets \<Rightarrow> error + bool" where
  "keySetsMatch E ev ks =
     (if allKeys1 E ks then Inr True
      else (case ks of
              KeyArr ds \<Rightarrow> some_js (\<lambda>keySet. matchKeys E (Some keySet) ev) ds
            | Marker \<Rightarrow> Inl TypeError))"

fun forBindings ::
  "('k, 'd, 'w, 'n) env \<Rightarrow> 'w event \<Rightarrow> ('d keysets \<times> 'f) list \<Rightarrow> error + 'f option" where
  "forBindings E ev [] = Inr None"
| "forBindings E ev ((ks, f) # rest) =
     (case keySetsMatch E ev ks of
        Inl e \<Rightarrow> Inl e
      | Inr True \<Rightarrow> Inr (Some f)
      | Inr False \<Rightarrow> forBindings E ev rest)"

definition instanceMatch ::
  "('k, 'd, 'w, 'n) env \<Rightarrow> ('d, 'f) store \<Rightarrow> 'w event \<Rightarrow> jsval \<Rightarrow> error + 'f option" where
  "instanceMatch E s ev instance =
     (case getBinding E s instance of
        Inl e \<Rightarrow> Inl e
      | Inr IsNull \<Rightarrow> Inl TypeError
      | Inr IsUndefined \<Rightarrow> Inl TypeError
      | Inr (Val bindings) \<Rightarrow> forBindings E ev bindings)"

fun findLoop ::
  "('k, 'd, 'w, 'n) env \<Rightarrow> ('d, 'f) store \<Rightarrow> 'w event \<Rightarrow> nat \<Rightarrow> error + ('f \<times> jsval) option" where
  "findLoop E s ev 0 = Inr None"
| "findLoop E s ev (Suc i) =
     (let instance = at_js (instances2 s) i in
      case instanceMatch E s ev instance of
        Inl e \<Rightarrow> Inl e
      | Inr (Some f) \<Rightarrow> Inr (Some (f, instance))
      | Inr None \<Rightarrow> findLoop E s ev i)"

definition findBindingForEvent ::
  "('k, 'd, 'w, 'n) env \<Rightarrow> 'w event \<Rightarrow> ('d, 'f) store \<Rightarrow> error + ('f \<times> jsval) option" where
  "findBindingForEvent E ev s = findLoop E s ev (length (instances2 s))"


section \<open>The listeners module\<close>

text \<open>
  The value \<^verbatim>\<open>_handlers\<close> maps a class prototype to: a \<^verbatim>\<open>Map\<close> from key-sets to
  callbacks and a \<^verbatim>\<open>Set\<close> of instances, both in insertion order. A key-set array
  here is \<^verbatim>\<open>[ null ]\<close> or what \<^verbatim>\<open>parseKeys\<close> returned, so its elements are
  descriptors or \<^verbatim>\<open>null\<close> (\<open>None\<close>). The \<^verbatim>\<open>Map\<close> compares its keys by identity and
  every registration brings a new array, so \<^verbatim>\<open>bindings.set\<close> adds an entry at the end.
\<close>

record ('d, 'f) handler =
  bindings :: "('d option list \<times> 'f) list"
  instances :: "ref list"

text \<open>
  The module's variables, and what it changes outside itself: how many copies of
  \<^verbatim>\<open>_handleClick\<close> and \<^verbatim>\<open>_handleKeyDown\<close> the document holds (counted as if the
  document kept every \<^verbatim>\<open>addEventListener\<close> call, so that only the module's flags can
  keep the count at one), which instances each element's \<^verbatim>\<open>onfocus\<close> chain activates
  (newest wrapper first), and the zero-delay timers still to fire.
\<close>

record ('d, 'f, 'n) listeners =
  handlers :: "(ref \<times> ('d, 'f) handler) list"
  focusedInstance :: jsval
  clicksBound :: bool
  keysBound :: bool
  docClick :: nat
  docKeydown :: nat
  onfocus :: "'n \<Rightarrow> ref list"
  timers :: "ref list"

definition initListeners :: "('d, 'f, 'n) listeners" where
  "initListeners = \<lparr>handlers = [], focusedInstance = Null, clicksBound = False,
     keysBound = False, docClick = 0, docKeydown = 0, onfocus = (\<lambda>_. []), timers = []\<rparr>"

text \<open>\<^verbatim>\<open>getBinding\<close> is \<^verbatim>\<open>_handlers.get( target )\<close>; \<open>None\<close> is \<^verbatim>\<open>undefined\<close>.\<close>

definition L_getBinding :: "('d, 'f, 'n) listeners \<Rightarrow> ref \<Rightarrow> ('d, 'f) handler option" where
  "L_getBinding s target = map_of (handlers s) target"

text \<open>A change made through the reference \<^verbatim>\<open>_handlers.get( target )\<close> gave out.\<close>

fun updHandler ::
  "ref \<Rightarrow> (('d, 'f) handler \<Rightarrow> ('d, 'f) handler) \<Rightarrow> (ref \<times> ('d, 'f) handler) list
   \<Rightarrow> (ref \<times> ('d, 'f) handler) list" where
  "updHandler target g [] = []"
| "updHandler target g ((k, h) # rest) =
     (if k = target then (k, g h) # rest else (k, h) # updHandler target g rest)"

definition setAdd :: "'a \<Rightarrow> 'a list \<Rightarrow> 'a list" where
  "setAdd x xs = (if x \<in> set xs then xs else xs @ [x])"

definition L_addInstance ::
  "('k, 'd, 'w, 'n) env \<Rightarrow> ref \<Rightarrow> ('d, 'f, 'n) listeners \<Rightarrow> (error + unit) \<times> ('d, 'f, 'n) listeners" where
  "L_addInstance E target s =
     (case L_getBinding s (classProto E target) of
        None \<Rightarrow> (Inl TypeError, s)
      | Some _ \<Rightarrow>
          (Inr (), s\<lparr>handlers := updHandler (classProto E target)
                     (\<lambda>h. h\<lparr>instances := setAdd target (instances h)\<rparr>) (handlers s)\<rparr>))"

definition L_deleteInstance ::
  "('k, 'd, 'w, 'n) env \<Rightarrow> ref \<Rightarrow> ('d, 'f, 'n) listeners \<Rightarrow> (error + bool) \<times> ('d, 'f, 'n) listeners" where
  "L_deleteInstance E target s =
     (case L_getBinding s (classProto E target) of
        None \<Rightarrow> (Inl TypeError, s)
      | Some h0 \<Rightarrow>
          (Inr (target \<in> set (instances h0)),
           s\<lparr>handlers := updHandler (classProto E target)
               (\<lambda>h. h\<lparr>instances := removeAll target (instances h)\<rparr>) (handlers s)\<rparr>))"

text \<open>
  \<^verbatim>\<open>_findFocused\<close>: the click target is a node, so it is never identical to a missing
  node, and \<^verbatim>\<open>node.contains\<close> on a missing node throws.
\<close>

definition L_findFocused :: "('k, 'd, 'w, 'n) env \<Rightarrow> 'n \<Rightarrow> ref \<Rightarrow> error + bool" where
  "L_findFocused E target instance =
     (case findDOMNode E instance of
        None \<Rightarrow> Inl TypeError
      | Some node \<Rightarrow> Inr (target = node \<or> contains E node target))"

definition L_bindKeys :: "('d, 'f, 'n) listeners \<Rightarrow> ('d, 'f, 'n) listeners" where
  "L_bindKeys s =
     (if \<not> keysBound s then s\<lparr>docKeydown := Suc (docKeydown s), keysBound := True\<rparr> else s)"

definition L_unbindKeys :: "('d, 'f, 'n) listeners \<Rightarrow> ('d, 'f, 'n) listeners" where
  "L_unbindKeys s =
     (if keysBound s then s\<lparr>docKeydown := docKeydown s - 1, keysBound := False\<rparr> else s)"

definition L_bindClicks :: "('d, 'f, 'n) listeners \<Rightarrow> ('d, 'f, 'n) listeners" where
  "L_bindClicks s =
     (if \<not> clicksBound s then s\<lparr>docClick := Suc (docClick s), clicksBound := True\<rparr> else s)"

definition L_unbindClicks :: "('d, 'f, 'n) listeners \<Rightarrow> ('d, 'f, 'n) listeners" where
  "L_unbindClicks s =
     (if clicksBound s \<and> \<not> list_ex (\<lambda>(k, h). length (instances h) \<noteq> 0) (handlers s)
      then s\<lparr>docClick := docClick s - 1, clicksBound := False\<rparr> else s)"

definition L_activate :: "jsval \<Rightarrow> ('d, 'f, 'n) listeners \<Rightarrow> ('d, 'f, 'n) listeners" where
  "L_activate instance s =
     (let s1 = s\<lparr>focusedInstance := instance\<rparr> in
      if truthy instance then L_bindKeys s1 else L_unbindKeys s1)"

text \<open>
  \<^verbatim>\<open>_handleClick\<close>: \<^verbatim>\<open>[ ...instances ].find\<close> gives the first instance whose node
  holds the target, or \<^verbatim>\<open>undefined\<close>; the loop over the handlers stops at the first
  truthy result, and whatever the variable holds at the end is activated.
\<close>

fun findInstance :: "('k, 'd, 'w, 'n) env \<Rightarrow> 'n \<Rightarrow> ref list \<Rightarrow> error + jsval" where
  "findInstance E target [] = Inr Undefined"
| "findInstance E target (i # rest) =
     (case L_findFocused E target i of
        Inl e \<Rightarrow> Inl e
      | Inr True \<Rightarrow> Inr (Obj i)
      | Inr False \<Rightarrow> findInstance E target rest)"

fun clickLoop ::
  "('k, 'd, 'w, 'n) env \<Rightarrow> 'n \<Rightarrow> jsval \<Rightarrow> (ref \<times> ('d, 'f) handler) list \<Rightarrow> error + jsval" where
  "clickLoop E target focused [] = Inr focused"
| "clickLoop E target focused ((k, h) # rest) =
     (case findInstance E target (instances h) of
        Inl e \<Rightarrow> Inl e
      | Inr found \<Rightarrow> if truthy found then Inr found else clickLoop E target found rest)"

definition L_handleClick ::
  "('k, 'd, 'w, 'n) env \<Rightarrow> 'n \<Rightarrow> ('d, 'f, 'n) listeners \<Rightarrow> (error + unit) \<times> ('d, 'f, 'n) listeners" where
  "L_handleClick E target s =
     (case clickLoop E target Null (handlers s) of
        Inl e \<Rightarrow> (Inl e, s)
      | Inr found \<Rightarrow> (Inr (), L_activate found s))"

text \<open>
  \<^verbatim>\<open>_shouldConsider\<close>: \<^verbatim>\<open>!~[ 'INPUT', 'SELECT', 'TEXTAREA' ].indexOf( tagName )\<close>.
  \<^verbatim>\<open>indexOf\<close> is the position of the first equal element or \<open>-1\<close>, \<^verbatim>\<open>~\<close> the bitwise
  complement, and \<^verbatim>\<open>!\<close> holds of the number zero only.
\<close>

fun indexOfFrom :: "'a list \<Rightarrow> 'a \<Rightarrow> int \<Rightarrow> int" where
  "indexOfFrom [] x n = - 1"
| "indexOfFrom (y # ys) x n = (if y = x then n else indexOfFrom ys x (n + 1))"

definition indexOf :: "'a list \<Rightarrow> 'a \<Rightarrow> int" where
  "indexOf xs x = indexOfFrom xs x 0"

definition L_shouldConsider :: "'w event \<Rightarrow> bool" where
  "L_shouldConsider ev =
     (let notEnterable = (NOT (indexOf [''INPUT'', ''SELECT'', ''TEXTAREA''] (tagName ev)) = 0)
      in notEnterable)"

text \<open>
  \<^verbatim>\<open>_handleKeyDown\<close>. The callbacks are the caller's code: the model records each
  \<^verbatim>\<open>fn.call( _focusedInstance, event )\<close> as a pair of the callback and the
  \<^verbatim>\<open>this\<close> it was given, and takes the callback to return without calling back into
  the module. An array is truthy, so \<^verbatim>\<open>!keySets\<close> never holds and the test is the
  \<^verbatim>\<open>.some\<close>. Reading \<^verbatim>\<open>.constructor\<close> of a missing focused instance throws, and so
  does taking \<^verbatim>\<open>bindings\<close> out of a missing handler.
\<close>

fun forEachBinding ::
  "('k, 'd, 'w, 'n) env \<Rightarrow> 'w event \<Rightarrow> jsval \<Rightarrow> ('d option list \<times> 'f) list
   \<Rightarrow> ('f \<times> jsval) list \<times> error option" where
  "forEachBinding E ev this [] = ([], None)"
| "forEachBinding E ev this ((ks, f) # rest) =
     (case some_js (\<lambda>keySet. matchKeys E keySet ev) ks of
        Inl e \<Rightarrow> ([], Some e)
      | Inr True \<Rightarrow>
          (case forEachBinding E ev this rest of (calls, r) \<Rightarrow> ((f, this) # calls, r))
      | Inr False \<Rightarrow> forEachBinding E ev this rest)"

definition L_handleKeyDown ::
  "('k, 'd, 'w, 'n) env \<Rightarrow> 'w event \<Rightarrow> ('d, 'f, 'n) listeners \<Rightarrow> ('f \<times> jsval) list \<times> error option" where
  "L_handleKeyDown E ev s =
     (if L_shouldConsider ev then
        (case focusedInstance s of
           Obj inst \<Rightarrow>
             (case L_getBinding s (classProto E inst) of
                None \<Rightarrow> ([], Some TypeError)
              | Some h \<Rightarrow> forEachBinding E ev (focusedInstance s) (bindings h))
         | _ \<Rightarrow> ([], Some TypeError))
      else ([], None))"

text \<open>A keydown on the document runs every copy of the listener it holds.\<close>

definition documentKeydown ::
  "('k, 'd, 'w, 'n) env \<Rightarrow> 'w event \<Rightarrow> ('d, 'f, 'n) listeners
   \<Rightarrow> (('f \<times> jsval) list \<times> error option) list" where
  "documentKeydown E ev s = replicate (docKeydown s) (L_handleKeyDown E ev s)"

text \<open>
  \<^verbatim>\<open>_bindInputs\<close> wraps the \<^verbatim>\<open>onfocus\<close> of every focusable element under the
  instance's node: the wrapper activates the instance and then calls the handler it
  replaced. A focus event on an element therefore activates its chain in order.
\<close>

definition L_bindInputs ::
  "('k, 'd, 'w, 'n) env \<Rightarrow> ref \<Rightarrow> ('d, 'f, 'n) listeners \<Rightarrow> ('d, 'f, 'n) listeners" where
  "L_bindInputs E instance s =
     (if hasQuerySelectorAll E then
        (case findDOMNode E instance of
           None \<Rightarrow> s
         | Some node \<Rightarrow>
             (let fs = focusables E node in
              if length fs \<noteq> 0
              then s\<lparr>onfocus := foldl (\<lambda>m element. m(element := instance # m element)) (onfocus s) fs\<rparr>
              else s))
      else s)"

definition focusEvent :: "'n \<Rightarrow> ('d, 'f, 'n) listeners \<Rightarrow> ('d, 'f, 'n) listeners" where
  "focusEvent element s = foldl (\<lambda>t i. L_activate (Obj i) t) s (onfocus s element)"

text \<open>\<^verbatim>\<open>setBinding\<close>, \<^verbatim>\<open>onMount\<close> with its deferred activation, \<^verbatim>\<open>onUnmount\<close>.\<close>

definition L_setBinding ::
  "('k, 'd, 'w, 'n) env \<Rightarrow> 'k option \<Rightarrow> 'f \<Rightarrow> ref \<Rightarrow> ('d, 'f, 'n) listeners
   \<Rightarrow> ('d, 'f, 'n) listeners" where
  "L_setBinding E keys f target s =
     (let ks = (case keys of None \<Rightarrow> [None] | Some k \<Rightarrow> map Some (parseKeys E k));
          s1 = (case L_getBinding s target of
                  None \<Rightarrow> s\<lparr>handlers := handlers s @ [(target, \<lparr>bindings = [], instances = []\<rparr>)]\<rparr>
                | Some _ \<Rightarrow> s)
      in s1\<lparr>handlers := updHandler target (\<lambda>h. h\<lparr>bindings := bindings h @ [(ks, f)]\<rparr>)
                          (handlers s1)\<rparr>)"

definition onMount ::
  "('k, 'd, 'w, 'n) env \<Rightarrow> ref \<Rightarrow> ('d, 'f, 'n) listeners \<Rightarrow> (error + unit) \<times> ('d, 'f, 'n) listeners" where
  "onMount E instance s =
     (case L_addInstance E instance (L_bindInputs E instance (L_bindClicks s)) of
        (Inl e, s3) \<Rightarrow> (Inl e, s3)
      | (Inr _, s3) \<Rightarrow> (Inr (), s3\<lparr>timers := timers s3 @ [instance]\<rparr>))"

definition timerFires :: "('d, 'f, 'n) listeners \<Rightarrow> ('d, 'f, 'n) listeners" where
  "timerFires s =
     (case timers s of
        [] \<Rightarrow> s
      | instance # rest \<Rightarrow> L_activate (Obj instance) (s\<lparr>timers := rest\<rparr>))"

definition onUnmount ::
  "('k, 'd, 'w, 'n) env \<Rightarrow> ref \<Rightarrow> ('d, 'f, 'n) listeners \<Rightarrow> (error + unit) \<times> ('d, 'f, 'n) listeners" where
  "onUnmount E instance s =
     (case L_deleteInstance E instance s of
        (Inl e, s1) \<Rightarrow> (Inl e, s1)
      | (Inr _, s1) \<Rightarrow>
          (let s2 = L_unbindClicks s1 in
           (Inr (), if strict_eq (focusedInstance s2) (Obj instance) then L_activate Null s2 else s2)))"

text \<open>
  Everything that can happen to the module, one step at a time: the four public
  functions, a pending timer firing, and the three kinds of DOM event. A keydown leaves
  the module's variables as they are.
\<close>

datatype ('k, 'f, 'w, 'n) action =
    SetBinding "'k option" 'f ref
  | OnMount ref
  | OnUnmount ref
  | TimerFires
  | Click 'n
  | Focus 'n
  | KeyDown "'w event"

fun step ::
  "('k, 'd, 'w, 'n) env \<Rightarrow> ('d, 'f, 'n) listeners \<Rightarrow> ('k, 'f, 'w, 'n) action \<Rightarrow> ('d, 'f, 'n) listeners" where
  "step E s (SetBinding keys f target) = L_setBinding E keys f target s"
| "step E s (OnMount i) = snd (onMount E i s)"
| "step E s (OnUnmount i) = snd (onUnmount E i s)"
| "step E s TimerFires = timerFires s"
| "step E s (Click target) = snd (L_handleClick E target s)"
| "step E s (Focus element) = focusEvent element s"
| "step E s (KeyDown ev) = s"

definition run ::
  "('k, 'd, 'w, 'n) env \<Rightarrow> ('k, 'f, 'w, 'n) action list \<Rightarrow> ('d, 'f, 'n) listeners" where
  "run E acts = foldl (step E) initListeners acts"

definition allInstanceSetsEmpty :: "('d, 'f, 'n) listeners \<Rightarrow> bool" where
  "allInstanceSetsEmpty s = (\<not> list_ex (\<lambda>(k, h). instances h \<noteq> []) (handlers s))"


text \<open>
  What the two flags are for: the document holds exactly one copy of a listener while
  its flag is set and none otherwise, and the keydown flag is set exactly while the
  focused pointer holds an instance.
\<close>

definition listenersOk :: "('d, 'f, 'n) listeners \<Rightarrow> bool" where
  "listenersOk s =
     (docClick s = (if clicksBound s then 1 else 0) \<and>
      docKeydown s = (if keysBound s then 1 else 0) \<and>
      keysBound s = truthy (focusedInstance s))"

fun isUnmount :: "('k, 'f, 'w, 'n) action \<Rightarrow> bool" where
  "isUnmount (OnUnmount i) = True"
| "isUnmount _ = False"



section \<open>A concrete page\<close>

text \<open>
  Object 0 is the prototype of a decorated class, every other object an instance of
  it. Keys and descriptors are strings, a descriptor matches the event that carries the
  same string, \<^verbatim>\<open>allKeys()\<close> is the marker value, and the \<open>n\<close>-th identifier is
  \<open>n + 1\<close> letters long. Every instance renders the node of its own number.
\<close>

definition pageEnv :: "(string, string, string, nat) env" where
  "pageEnv = \<lparr>
     parseKeys = (\<lambda>k. [k]),
     matchKeys = (\<lambda>d ev. Inr (d = Some (keyInfo ev))),
     allKeys0 = Marker,
     allKeys1 = (\<lambda>ks. ks = Marker),
     uuid = (\<lambda>n. replicate (Suc n) (CHR ''u'')),
     protoChain = (\<lambda>r. if r = 0 then [] else [0]),
     classProto = (\<lambda>r. 0),
     findDOMNode = (\<lambda>r. Some r),
     contains = (\<lambda>a b. False),
     hasQuerySelectorAll = True,
     focusables = (\<lambda>n. [])\<rparr>"

definition pressA :: "string event" where
  "pressA = \<lparr>tagName = ''DIV'', keyInfo = ''a''\<rparr>"

definition typeA :: "string event" where
  "typeA = \<lparr>tagName = ''INPUT'', keyInfo = ''a''\<rparr>"

text \<open>The class binds key a to callback f; instance 1 is mounted and its timer fired.\<close>

definition mounted :: "(string, string, string, nat) action list" where
  "mounted = [SetBinding (Some ''a'') ''f'' 0, OnMount 1, TimerFires]"

text \<open>The store after the same class bound a to f and instance 1 was activated.\<close>

definition boundStore :: "(string, string) store" where
  "boundStore = activate (One (Obj 1)) (setBinding pageEnv (Some ''a'') ''f'' 0 emptyStore)"




text \<open>
  A page with a class of its own for each instance: the prototype of instance \<open>r\<close> is
  object \<open>r + 10\<close>. The classes of instances 1 to 4 (call them W, X, Y, Z) bind the keys
  b, a, a, c to the callbacks w, x, y, z, and the instances are activated in the order
  W, X, Y, Z, X, W.
\<close>

definition classesEnv :: "(string, string, string, nat) env" where
  "classesEnv = pageEnv\<lparr>protoChain := (\<lambda>r. if r < 10 then [r + 10] else []),
                          classProto := (\<lambda>r. r + 10)\<rparr>"

definition fourClasses :: "(string, string) store" where
  "fourClasses =
     setBinding classesEnv (Some ''c'') ''z'' 14
       (setBinding classesEnv (Some ''a'') ''y'' 13
         (setBinding classesEnv (Some ''a'') ''x'' 12
           (setBinding classesEnv (Some ''b'') ''w'' 11 emptyStore)))"

definition reactivated :: "(string, string) store" where
  "reactivated =
     foldl (\<lambda>s i. activate (One (Obj i)) s) fourClasses [1, 2, 3, 4, 2, 1]"


section \<open>Facts about the store\<close>

text \<open>
  What the shared loop computes: it pops as many elements as the array holds values
  loosely equal to \<open>x\<close>, always from the end.
\<close>

lemma popLoop_take:
  "i \<le> length xs \<Longrightarrow>
   popLoop x i xs = take (length xs - length (filter (\<lambda>y. loose_eq y x) (take i xs))) xs"
proof (induction i arbitrary: xs)
  case 0
  then show ?case by simp
next
  case (Suc i)
  then have lt: "i < length xs" by simp
  have c: "take (Suc i) xs = take i xs @ [xs ! i]"
    using lt by (simp add: take_Suc_conv_app_nth)
  show ?case
  proof (cases "loose_eq (xs ! i) x")
    case True
    have a: "i \<le> length (butlast xs)" using lt by simp
    have b: "take i (butlast xs) = take i xs" using lt by (simp add: take_butlast)
    have d: "length (filter (\<lambda>y. loose_eq y x) (take i xs)) \<le> i"
      by (metis length_filter_le length_take min.absorb2 lt less_imp_le_nat)
    show ?thesis using True lt Suc.IH[OF a] b c d
      by (simp add: at_js_def take_butlast butlast_conv_take)
  next
    case False
    show ?thesis using False lt Suc.IH[of xs] c by (simp add: at_js_def)
  qed
qed

lemma activateOne_take:
  "activateOne xs x = take (length xs - length (filter (\<lambda>y. loose_eq y x) xs)) xs @ [x]"
  by (simp add: activateOne_def popLoop_take)

lemma activate_One: "instances2 (activate (One x) s) = activateOne (instances2 s) x"
  by (simp add: activate_def)

lemma readUUID_handlers2: "readUUID E (s\<lparr>handlers2 := hs\<rparr>) r = readUUID E s r"
  by (simp add: readUUID_def)

lemma getBindingLoop_shape:
  "getBindingLoop u n hs = Inr (Val bs) \<Longrightarrow> \<exists>ks f. bs = [(ks, f)]"
  by (induction n) (auto simp: Let_def split: if_splits)

lemma getBinding_shape:
  "getBinding E s v = Inr (Val bs) \<Longrightarrow> \<exists>ks f. bs = [(ks, f)]"
  by (auto simp: getBinding_def Let_def split: jsval.splits if_splits dest: getBindingLoop_shape)

lemma instanceMatch_Some:
  assumes "instanceMatch E s ev inst = Inr (Some f)"
  shows "\<exists>ks. getBinding E s inst = Inr (Val [(ks, f)]) \<and> keySetsMatch E ev ks = Inr True"
proof -
  from assms obtain bs where bs: "getBinding E s inst = Inr (Val bs)"
    and m: "forBindings E ev bs = Inr (Some f)"
    by (auto simp: instanceMatch_def split: sum.splits nullable.splits)
  from getBinding_shape[OF bs] obtain ks g where e: "bs = [(ks, g)]" by blast
  from m e have "keySetsMatch E ev ks = Inr True \<and> g = f"
    by (auto split: sum.splits bool.splits if_splits)
  with bs e show ?thesis by blast
qed

lemma findLoop_Some:
  "findLoop E s ev n = Inr (Some (f, inst)) \<Longrightarrow>
   \<exists>i<n. at_js (instances2 s) i = inst \<and> instanceMatch E s ev inst = Inr (Some f) \<and>
     (\<forall>j. i < j \<and> j < n \<longrightarrow> instanceMatch E s ev (at_js (instances2 s) j) = Inr None)"
proof (induction n)
  case 0
  then show ?case by simp
next
  case (Suc n)
  show ?case
  proof (cases "instanceMatch E s ev (at_js (instances2 s) n)")
    case (Inl e)
    with Suc.prems show ?thesis by simp
  next
    case (Inr r)
    show ?thesis
    proof (cases r)
      case None
      with Inr Suc.prems have "findLoop E s ev n = Inr (Some (f, inst))" by simp
      from Suc.IH[OF this] obtain i where i: "i < n" "at_js (instances2 s) i = inst"
        "instanceMatch E s ev inst = Inr (Some f)"
        "\<forall>j. i < j \<and> j < n \<longrightarrow> instanceMatch E s ev (at_js (instances2 s) j) = Inr None"
        by blast
      have "\<forall>j. i < j \<and> j < Suc n \<longrightarrow> instanceMatch E s ev (at_js (instances2 s) j) = Inr None"
        using i(4) Inr None by (auto simp: less_Suc_eq)
      with i show ?thesis by (intro exI[of _ i]) simp
    next
      case (Some g)
      with Inr Suc.prems have "g = f" "at_js (instances2 s) n = inst" by (simp_all add: Let_def)
      with Inr Some show ?thesis by (intro exI[of _ n]) auto
    qed
  qed
qed


section \<open>Facts about the listeners\<close>

lemma map_of_updHandler:
  "map_of (updHandler t g hs) k = (if k = t then map_option g (map_of hs k) else map_of hs k)"
  by (induction hs) auto

lemma forEachBinding_this:
  "(g, t) \<in> set (fst (forEachBinding E ev this bs)) \<Longrightarrow> t = this \<and> g \<in> snd ` set bs"
proof (induction bs arbitrary: g t)
  case Nil
  then show ?case by simp
next
  case (Cons b bs)
  obtain ks f where b: "b = (ks, f)" by (cases b)
  show ?case
  proof (cases "some_js (\<lambda>keySet. matchKeys E keySet ev) ks")
    case (Inl e)
    with Cons.prems b show ?thesis by simp
  next
    case (Inr m)
    show ?thesis
    proof (cases m)
      case True
      with Inr Cons.prems b
      have "(g, t) = (f, this) \<or> (g, t) \<in> set (fst (forEachBinding E ev this bs))"
        by (auto split: prod.splits)
      then show ?thesis using Cons.IH b by auto
    next
      case False
      with Inr Cons.prems b have "(g, t) \<in> set (fst (forEachBinding E ev this bs))" by simp
      then show ?thesis using Cons.IH b by auto
    qed
  qed
qed

lemma shouldConsider_iff:
  "L_shouldConsider ev \<longleftrightarrow> tagName ev \<notin> {''INPUT'', ''SELECT'', ''TEXTAREA''}"
  by (auto simp: L_shouldConsider_def indexOf_def not_int_def)

lemma ok_init: "listenersOk initListeners"
  by (simp add: listenersOk_def initListeners_def)

lemma ok_activate: "listenersOk s \<Longrightarrow> listenersOk (L_activate v s)"
  by (simp add: listenersOk_def L_activate_def L_bindKeys_def L_unbindKeys_def Let_def)

lemma ok_bindClicks: "listenersOk s \<Longrightarrow> listenersOk (L_bindClicks s)"
  by (simp add: listenersOk_def L_bindClicks_def)

lemma ok_unbindClicks: "listenersOk s \<Longrightarrow> listenersOk (L_unbindClicks s)"
  by (simp add: listenersOk_def L_unbindClicks_def)

lemma ok_bindInputs: "listenersOk s \<Longrightarrow> listenersOk (L_bindInputs E i s)"
  by (simp add: listenersOk_def L_bindInputs_def Let_def split: option.splits)

lemma ok_addInstance: "listenersOk s \<Longrightarrow> listenersOk (snd (L_addInstance E i s))"
  by (simp add: listenersOk_def L_addInstance_def split: option.splits)

lemma ok_deleteInstance: "listenersOk s \<Longrightarrow> listenersOk (snd (L_deleteInstance E i s))"
  by (simp add: listenersOk_def L_deleteInstance_def split: option.splits)

lemma ok_timers: "listenersOk s \<Longrightarrow> listenersOk (s\<lparr>timers := ts\<rparr>)"
  by (simp add: listenersOk_def)

lemma ok_setBinding: "listenersOk s \<Longrightarrow> listenersOk (L_setBinding E keys f t s)"
  by (simp add: listenersOk_def L_setBinding_def Let_def split: option.splits)

lemma ok_onMount:
  assumes "listenersOk s"
  shows "listenersOk (snd (onMount E i s))"
proof -
  let ?r = "L_addInstance E i (L_bindInputs E i (L_bindClicks s))"
  have "listenersOk (snd ?r)"
    using assms by (intro ok_addInstance ok_bindInputs ok_bindClicks)
  then show ?thesis
    by (cases ?r) (auto simp: onMount_def ok_timers split: sum.splits)
qed

lemma ok_onUnmount:
  assumes "listenersOk s"
  shows "listenersOk (snd (onUnmount E i s))"
proof -
  let ?r = "L_deleteInstance E i s"
  have "listenersOk (snd ?r)" using assms by (rule ok_deleteInstance)
  then show ?thesis
    by (cases ?r) (auto simp: onUnmount_def Let_def ok_unbindClicks ok_activate split: sum.splits)
qed

lemma ok_foldl_activate:
  "listenersOk s \<Longrightarrow> listenersOk (foldl (\<lambda>t i. L_activate (Obj i) t) s is)"
  by (induction "is" arbitrary: s) (simp_all add: ok_activate)

lemma ok_focus: "listenersOk s \<Longrightarrow> listenersOk (focusEvent el s)"
  by (simp add: focusEvent_def ok_foldl_activate)

lemma ok_timerFires: "listenersOk s \<Longrightarrow> listenersOk (timerFires s)"
  by (auto simp: timerFires_def ok_activate ok_timers split: list.splits)

lemma ok_click: "listenersOk s \<Longrightarrow> listenersOk (snd (L_handleClick E t s))"
  by (auto simp: L_handleClick_def ok_activate split: sum.splits)

lemma ok_step: "listenersOk s \<Longrightarrow> listenersOk (step E s a)"
  by (cases a)
    (simp_all add: ok_setBinding ok_onMount ok_onUnmount ok_timerFires ok_click ok_focus)

lemma ok_foldl: "listenersOk s \<Longrightarrow> listenersOk (foldl (step E) s acts)"
  by (induction acts arbitrary: s) (simp_all add: ok_step)

lemma ok_run: "listenersOk (run E acts)"
  by (simp add: run_def ok_foldl ok_init)

lemma run_append: "run E (acts @ later) = foldl (step E) (run E acts) later"
  by (simp add: run_def)

lemma docClick_activate: "docClick (L_activate v s) = docClick s"
  by (simp add: L_activate_def L_bindKeys_def L_unbindKeys_def Let_def)

lemma docClick_foldl_activate:
  "docClick (foldl (\<lambda>t i. L_activate (Obj i) t) s is) = docClick s"
  by (induction "is" arbitrary: s) (simp_all add: docClick_activate)

lemma docClick_other_steps: "\<not> isUnmount a \<Longrightarrow> docClick s \<le> docClick (step E s a)"
proof (cases a)
  case (SetBinding keys f t)
  then show ?thesis by (simp add: L_setBinding_def Let_def split: option.splits)
next
  case (OnMount i)
  have "docClick (snd (onMount E i s)) = docClick (L_bindClicks s)"
    by (simp add: onMount_def L_addInstance_def L_bindInputs_def Let_def split: option.splits)
  then show ?thesis using OnMount by (simp add: L_bindClicks_def)
next
  case (OnUnmount i)
  assume "\<not> isUnmount a"
  with OnUnmount show ?thesis by simp
next
  case TimerFires
  then show ?thesis by (simp add: timerFires_def docClick_activate split: list.splits)
next
  case (Click t)
  then show ?thesis by (simp add: L_handleClick_def docClick_activate split: sum.splits)
next
  case (Focus el)
  then show ?thesis by (simp add: focusEvent_def docClick_foldl_activate)
next
  case (KeyDown ev)
  then show ?thesis by simp
qed


lemma unmount_click:
  assumes ok: "listenersOk s"
  shows "docClick (snd (onUnmount E i s)) =
     (if fst (onUnmount E i s) = Inr () \<and> allInstanceSetsEmpty (snd (onUnmount E i s))
      then 0 else docClick s)"
proof (cases "L_getBinding s (classProto E i)")
  case None
  then show ?thesis by (simp add: onUnmount_def L_deleteInstance_def)
next
  case (Some h)
  obtain r s1 where s1: "L_deleteInstance E i s = (Inr r, s1)"
    using Some by (simp add: L_deleteInstance_def)
  have e: "allInstanceSetsEmpty (L_activate v t) = allInstanceSetsEmpty t"
    for v and t :: "('a, 'b, 'c) listeners"
    by (simp add: allInstanceSetsEmpty_def L_activate_def L_bindKeys_def L_unbindKeys_def Let_def)
  have u: "allInstanceSetsEmpty (L_unbindClicks t) = allInstanceSetsEmpty t"
    for t :: "('a, 'b, 'c) listeners"
    by (simp add: allInstanceSetsEmpty_def L_unbindClicks_def)
  have ok1: "listenersOk s1" using ok_deleteInstance[OF ok, of E i] s1 by simp
  have d: "docClick s1 = docClick s"
    using Some s1 by (auto simp: L_deleteInstance_def)
  have q: "docClick (L_unbindClicks s1) = (if allInstanceSetsEmpty s1 then 0 else docClick s)"
    using ok1 d by (auto simp: L_unbindClicks_def allInstanceSetsEmpty_def listenersOk_def)
  show ?thesis using s1 q
    by (simp add: onUnmount_def Let_def e docClick_activate u)
qed





text \<open>
  Whom a keydown is dispatched to. In the listeners module every call that
  \<^verbatim>\<open>_handleKeyDown\<close> makes passes the focused instance as \<^verbatim>\<open>this\<close>, and the callback
  is one bound to the class of that instance. In the store, \<^verbatim>\<open>findBindingForEvent\<close>
  answers with the instance at the highest position of the array whose binding matches:
  every position above it was looked at and has a binding that does not match.
\<close>

lemma dispatch_targets:
  "((g, t) \<in> set (fst (L_handleKeyDown E ev s)) \<longrightarrow>
      t = focusedInstance s \<and>
      (\<exists>i h. focusedInstance s = Obj i \<and> L_getBinding s (classProto E i) = Some h \<and>
             g \<in> snd ` set (bindings h))) \<and>
   (findBindingForEvent E ev st = Inr (Some (f, inst)) \<longrightarrow>
      (\<exists>i<length (instances2 st).
          instances2 st ! i = inst \<and>
          (\<exists>ks. getBinding E st inst = Inr (Val [(ks, f)]) \<and> keySetsMatch E ev ks = Inr True) \<and>
          (\<forall>j. i < j \<and> j < length (instances2 st) \<longrightarrow>
               instanceMatch E st ev (instances2 st ! j) = Inr None)))"
proof -
  have lis: "t = focusedInstance s \<and>
      (\<exists>i h. focusedInstance s = Obj i \<and> L_getBinding s (classProto E i) = Some h \<and>
             g \<in> snd ` set (bindings h))"
    if m: "(g, t) \<in> set (fst (L_handleKeyDown E ev s))"
  proof -
    from m have sc: "L_shouldConsider ev"
      by (cases "L_shouldConsider ev") (simp_all add: L_handleKeyDown_def)
    from m sc obtain i where i: "focusedInstance s = Obj i"
      by (cases "focusedInstance s") (simp_all add: L_handleKeyDown_def)
    from m sc i obtain h where h: "L_getBinding s (classProto E i) = Some h"
      by (cases "L_getBinding s (classProto E i)") (simp_all add: L_handleKeyDown_def)
    from m sc i h have c: "(g, t) \<in> set (fst (forEachBinding E ev (Obj i) (bindings h)))"
      by (simp add: L_handleKeyDown_def)
    from forEachBinding_this [OF c] have "t = Obj i" and "g \<in> snd ` set (bindings h)"
      by simp_all
    with i h show ?thesis by simp
  qed
  have sto: "\<exists>i<length (instances2 st).
          instances2 st ! i = inst \<and>
          (\<exists>ks. getBinding E st inst = Inr (Val [(ks, f)]) \<and> keySetsMatch E ev ks = Inr True) \<and>
          (\<forall>j. i < j \<and> j < length (instances2 st) \<longrightarrow>
               instanceMatch E st ev (instances2 st ! j) = Inr None)"
    if r: "findBindingForEvent E ev st = Inr (Some (f, inst))"
  proof -
    from r have "findLoop E st ev (length (instances2 st)) = Inr (Some (f, inst))"
      by (simp add: findBindingForEvent_def)
    from findLoop_Some [OF this] obtain i where i: "i < length (instances2 st)"
      and a: "at_js (instances2 st) i = inst"
      and b: "instanceMatch E st ev inst = Inr (Some f)"
      and c: "\<forall>j. i < j \<and> j < length (instances2 st) \<longrightarrow>
                instanceMatch E st ev (at_js (instances2 st) j) = Inr None"
      by blast
    from a i have a': "instances2 st ! i = inst" by (simp add: at_js_def)
    from c have c': "\<forall>j. i < j \<and> j < length (instances2 st) \<longrightarrow>
                instanceMatch E st ev (instances2 st ! j) = Inr None"
      by (simp add: at_js_def)
    from instanceMatch_Some [OF b] obtain ks
      where ks: "getBinding E st inst = Inr (Val [(ks, f)])" "keySetsMatch E ev ks = Inr True"
      by blast
    show ?thesis
      by (rule exI [of _ i]) (use i a' ks c' in blast)
  qed
  show ?thesis
  proof (intro conjI impI)
    assume "(g, t) \<in> set (fst (L_handleKeyDown E ev s))"
    from lis [OF this] show "t = focusedInstance s" by simp
  next
    assume "(g, t) \<in> set (fst (L_handleKeyDown E ev s))"
    from lis [OF this]
    show "\<exists>i h. focusedInstance s = Obj i \<and> L_getBinding s (classProto E i) = Some h \<and>
             g \<in> snd ` set (bindings h)" by simp
  next
    assume "findBindingForEvent E ev st = Inr (Some (f, inst))"
    from sto [OF this]
    show "\<exists>i<length (instances2 st).
          instances2 st ! i = inst \<and>
          (\<exists>ks. getBinding E st inst = Inr (Val [(ks, f)]) \<and> keySetsMatch E ev ks = Inr True) \<and>
          (\<forall>j. i < j \<and> j < length (instances2 st) \<longrightarrow>
               instanceMatch E st ev (instances2 st ! j) = Inr None)" .
  qed
qed


section \<open>The concrete page, evaluated\<close>

lemma pageEnv_fields:
  "parseKeys pageEnv k = [k]"
  "matchKeys pageEnv d ev = Inr (d = Some (keyInfo ev))"
  "allKeys0 pageEnv = Marker"
  "allKeys1 pageEnv ks = (ks = Marker)"
  "uuid pageEnv n = replicate (Suc n) (CHR ''u'')"
  "protoChain pageEnv r = (if r = 0 then [] else [0])"
  "classProto pageEnv r = 0"
  "findDOMNode pageEnv r = Some r"
  "contains pageEnv a b = False"
  "hasQuerySelectorAll pageEnv"
  "focusables pageEnv n = []"
  by (simp_all add: pageEnv_def)

lemmas listeners_eval =
  L_setBinding_def L_getBinding_def
  onMount_def onUnmount_def L_bindClicks_def L_unbindClicks_def L_bindInputs_def
  L_addInstance_def L_deleteInstance_def setAdd_def strict_eq_def
  timerFires_def L_activate_def L_bindKeys_def L_unbindKeys_def Let_def
  L_handleKeyDown_def documentKeydown_def shouldConsider_iff pageEnv_fields

lemmas store_eval =
  setBinding_def getBinding_def readUUID_def activate_def activateOne_def
  at_js_def findBindingForEvent_def instanceMatch_def keySetsMatch_def Let_def pageEnv_fields

lemma run_mounted:
  "run pageEnv mounted =
     \<lparr>handlers = [(0, \<lparr>bindings = [([Some ''a''], ''f'')], instances = [1]\<rparr>)],
      focusedInstance = Obj 1, clicksBound = True, keysBound = True,
      docClick = 1, docKeydown = 1, onfocus = (\<lambda>_. []), timers = []\<rparr>"
  by (simp add: run_def initListeners_def listeners_eval mounted_def)

lemma press_mounted:
  "L_handleKeyDown pageEnv pressA (run pageEnv mounted) = ([(''f'', Obj 1)], None)"
  by (simp add: run_mounted listeners_eval pressA_def)




lemma boundStore_eval:
  "boundStore =
     \<lparr>handlers2 = [\<lparr>targetUuid = Some ''u'', keySets = KeyArr [''a''], fn = ''f''\<rparr>],
      instances2 = [Obj 1], ownUUID = (\<lambda>_. None)(0 := Some ''u''), uuidCalls = 1\<rparr>"
  by (simp add: boundStore_def emptyStore_def store_eval)


section \<open>The claims\<close>

text \<open>
  C1, at the input where it fails. The listeners module does what the claim says (see
  \<open>dispatch_targets\<close>); the store does not. Four classes W, X, Y, Z bind the keys b, a,
  a, c, and their instances are activated in the order W, X, Y, Z, X, W. The claim says
  that key a goes to X: of the two instances with a matching binding, X was activated
  after Y. But each repeated activation calls \<^verbatim>\<open>pop()\<close>, which removes the last
  element instead of the one found, so Z and then the new entry of X are dropped and
  the array is W, X, Y, W. The search from the top passes W, whose binding does not
  match, and answers with Y and its callback.
\<close>

theorem later_activated_instance_passed_over:
  "instances2 reactivated = [Obj 1, Obj 2, Obj 3, Obj 1] \<and>
   instanceMatch classesEnv reactivated pressA (Obj 2) = Inr (Some ''x'') \<and>
   findBindingForEvent classesEnv pressA reactivated = Inr (Some (''y'', Obj 3))"
  by code_simp

text \<open>
  C2. Registering a binding and then asking for the bindings of the same target gives
  the registered pair of parsed key-set and callback. In the store the answer is that
  pair, provided the identifier the target has, or the one \<^verbatim>\<open>uuid()\<close> hands out for
  it, is a non-empty string (a falsy identifier would make \<^verbatim>\<open>getBinding\<close> answer
  \<^verbatim>\<open>null\<close>). In the listeners module the answer is the target's handler, whose
  bindings are the earlier ones followed by the new pair.
\<close>

theorem getBinding_after_setBinding:
  "(truthy_str (readUUID E st target) \<or> uuid E (uuidCalls st) \<noteq> [] \<longrightarrow>
      getBinding E (setBinding E keys f target st) (Obj target) =
        Inr (Val [(case keys of Some k \<Rightarrow> KeyArr (parseKeys E k) | None \<Rightarrow> allKeys0 E, f)])) \<and>
   (\<exists>h. L_getBinding (L_setBinding E keys g target s) target = Some h \<and>
        instances h = (case L_getBinding s target of None \<Rightarrow> [] | Some h0 \<Rightarrow> instances h0) \<and>
        bindings h = (case L_getBinding s target of None \<Rightarrow> [] | Some h0 \<Rightarrow> bindings h0) @
          [(case keys of None \<Rightarrow> [None] | Some k \<Rightarrow> map Some (parseKeys E k), g)])"
proof -
  have store: "getBinding E (setBinding E keys f target st) (Obj target) =
        Inr (Val [(case keys of Some k \<Rightarrow> KeyArr (parseKeys E k) | None \<Rightarrow> allKeys0 E, f)])"
    if u: "truthy_str (readUUID E st target) \<or> uuid E (uuidCalls st) \<noteq> []"
  proof (cases "truthy_str (readUUID E st target)")
    case True
    then show ?thesis
      by (simp add: setBinding_def getBinding_def Let_def readUUID_handlers2)
  next
    case False
    let ?s1 = "st\<lparr>ownUUID := (ownUUID st)(target := Some (uuid E (uuidCalls st))),
                   uuidCalls := Suc (uuidCalls st)\<rparr>"
    have r: "readUUID E ?s1 target = Some (uuid E (uuidCalls st))"
      by (simp add: readUUID_def)
    show ?thesis using False u r
      by (simp add: setBinding_def getBinding_def Let_def readUUID_handlers2)
  qed
  have lis: "\<exists>h. L_getBinding (L_setBinding E keys g target s) target = Some h \<and>
        instances h = (case L_getBinding s target of None \<Rightarrow> [] | Some h0 \<Rightarrow> instances h0) \<and>
        bindings h = (case L_getBinding s target of None \<Rightarrow> [] | Some h0 \<Rightarrow> bindings h0) @
          [(case keys of None \<Rightarrow> [None] | Some k \<Rightarrow> map Some (parseKeys E k), g)]"
    by (cases "map_of (handlers s) target")
      (auto simp: L_setBinding_def L_getBinding_def Let_def map_of_updHandler map_add_def)
  show ?thesis using store lis by blast
qed

theorem getBinding_after_setBinding_witness:
  "uuid pageEnv (uuidCalls (emptyStore :: (string, string) store)) \<noteq> [] \<and>
   getBinding pageEnv (setBinding pageEnv (Some ''a'') ''f'' 0 emptyStore) (Obj 0) =
     Inr (Val [(KeyArr [''a''], ''f'')]) \<and>
   (\<exists>h. L_getBinding (L_setBinding pageEnv (Some ''a'') ''f'' 0
           (initListeners :: (string, string, nat) listeners)) 0 = Some h \<and>
        bindings h = [([Some ''a''], ''f'')])"
proof -
  have u: "uuid pageEnv (uuidCalls (emptyStore :: (string, string) store)) \<noteq> []"
    by (simp add: pageEnv_def)
  have p: "parseKeys pageEnv ''a'' = [''a'']" by (simp add: pageEnv_def)
  have n: "L_getBinding (initListeners :: (string, string, nat) listeners) 0 = None"
    by (simp add: L_getBinding_def initListeners_def)
  show ?thesis
    using getBinding_after_setBinding
      [of pageEnv "emptyStore :: (string, string) store" 0 "Some ''a''" "''f''" "''f''"
        "initListeners :: (string, string, nat) listeners"] u p n
    by auto
qed

text \<open>
  C3, at the input where it fails. The store registers key a with callback f and then
  key b with callback g for the same class. Both registrations are in \<^verbatim>\<open>_handlers2\<close>,
  but \<^verbatim>\<open>getBinding\<close> returns from inside its loop at the first handler it meets, the
  latest one, so it answers with the pair for b alone.
\<close>

theorem getBinding_returns_latest_only:
  "map (\<lambda>h. (keySets h, fn h))
     (handlers2 (setBinding pageEnv (Some ''b'') ''g'' 0
        (setBinding pageEnv (Some ''a'') ''f'' 0 emptyStore)))
     = [(KeyArr [''a''], ''f''), (KeyArr [''b''], ''g'')] \<and>
   getBinding pageEnv
     (setBinding pageEnv (Some ''b'') ''g'' 0 (setBinding pageEnv (Some ''a'') ''f'' 0 emptyStore))
     (Obj 0)
     = Inr (Val [(KeyArr [''b''], ''g'')])"
  by code_simp

text \<open>
  C4, at the inputs where it fails. \<^verbatim>\<open>deleteInstance\<close> raises a ReferenceError on
  every call, since its first statement names the undeclared \<^verbatim>\<open>_instances\<close>.
  \<^verbatim>\<open>findBindingForEvent\<close> raises a TypeError when the instance on top has no binding
  (it iterates the \<^verbatim>\<open>null\<close> that \<^verbatim>\<open>getBinding\<close> returned) and when the top is
  \<^verbatim>\<open>null\<close>, the value the comment in \<^verbatim>\<open>activate\<close> describes as the cap that
  deactivates keydown handling (\<^verbatim>\<open>getBinding\<close> takes a property of it). Only the
  empty array of instances gives the quiet \<^verbatim>\<open>null\<close>.
\<close>

theorem absence_is_not_tolerated:
  "fst (deleteInstance (Obj 1) (emptyStore :: (string, string) store)) = Inl ReferenceError \<and>
   findBindingForEvent pageEnv pressA (activate (One (Obj 1)) (emptyStore :: (string, string) store))
     = Inl TypeError \<and>
   findBindingForEvent pageEnv pressA (activate (One Null) boundStore) = Inl TypeError \<and>
   findBindingForEvent pageEnv pressA (emptyStore :: (string, string) store) = Inr None"
  by code_simp

text \<open>
  C5, at the input where it fails. The store activates instance 1, then instance 2,
  then instance 1 again. The comment in \<^verbatim>\<open>activate\<close> promises that the instance is
  deleted and added again, which would give the array 2, 1. The loop finds instance 1 at
  index 0 but calls \<^verbatim>\<open>pop()\<close>, which removes the last element: instance 2 is lost and
  instance 1 is in the array twice.
\<close>

theorem activate_drops_other_instance:
  "instances2 (activate (One (Obj 2)) (activate (One (Obj 1)) (emptyStore :: (string, string) store)))
     = [Obj 1, Obj 2] \<and>
   instances2 (activate (One (Obj 1))
     (activate (One (Obj 2)) (activate (One (Obj 1)) (emptyStore :: (string, string) store))))
     = [Obj 1, Obj 1]"
  by code_simp




text \<open>
  C7. A keydown whose target is a text-entry element, that is one whose tag name is
  INPUT, SELECT or TEXTAREA, invokes no callback: \<^verbatim>\<open>_handleKeyDown\<close> returns without
  a call and without an exception, whatever the focused pointer and the bindings are,
  and so does every copy of it the document runs.
\<close>

theorem text_entry_invokes_nothing:
  "tagName ev \<in> {''INPUT'', ''SELECT'', ''TEXTAREA''} \<Longrightarrow>
   L_handleKeyDown E ev s = ([], None) \<and> concat (map fst (documentKeydown E ev s)) = []"
  by (simp add: L_handleKeyDown_def documentKeydown_def shouldConsider_iff)

theorem text_entry_invokes_nothing_witness:
  "tagName typeA \<in> {''INPUT'', ''SELECT'', ''TEXTAREA''} \<and>
   L_handleKeyDown pageEnv typeA (run pageEnv mounted) = ([], None) \<and>
   concat (map fst (documentKeydown pageEnv typeA (run pageEnv mounted))) = [] \<and>
   L_handleKeyDown pageEnv pressA (run pageEnv mounted) = ([(''f'', Obj 1)], None)"
proof -
  have t: "tagName typeA \<in> {''INPUT'', ''SELECT'', ''TEXTAREA''}"
    by (simp add: typeA_def)
  have p: "L_handleKeyDown pageEnv pressA (run pageEnv mounted) = ([(''f'', Obj 1)], None)"
    by (rule press_mounted)
  show ?thesis
    using text_entry_invokes_nothing [OF t, of pageEnv "run pageEnv mounted"] t p by simp
qed

text \<open>
  C8, where the claim as stated fails. On a fresh module an instance of a class that
  never bound a key is mounted and unmounted. \<^verbatim>\<open>onMount\<close> attaches the click listener
  before \<^verbatim>\<open>_addInstance\<close> throws; \<^verbatim>\<open>onUnmount\<close> throws in \<^verbatim>\<open>_deleteInstance\<close>,
  before \<^verbatim>\<open>_unbindClicks\<close>. After the unmount every instance set is empty (there is
  none), and the click listener is still attached.
\<close>

theorem failed_unmount_keeps_click_listener:
  "fst (onUnmount pageEnv 1
          (run pageEnv [OnMount 1 :: (string, string, string, nat) action])) = Inl TypeError \<and>
   allInstanceSetsEmpty
     (run pageEnv [OnMount 1, OnUnmount 1 :: (string, string, string, nat) action]) \<and>
   docClick (run pageEnv [OnMount 1, OnUnmount 1 :: (string, string, string, nat) action]) = 1"
  by (simp add: run_def initListeners_def listeners_eval allInstanceSetsEmpty_def)

text \<open>
  C8 as amended. Whatever sequence of \<^verbatim>\<open>setBinding\<close>, \<^verbatim>\<open>onMount\<close>, \<^verbatim>\<open>onUnmount\<close> calls, timers
  and DOM events the module has seen, the document holds at most one click listener and
  at most one keydown listener, even counting every \<^verbatim>\<open>addEventListener\<close> call as a
  new copy. An \<^verbatim>\<open>onUnmount\<close> leaves the document without click listener exactly if it
  ran through (the class of the instance has an entry in \<^verbatim>\<open>_handlers\<close>) and every
  instance set is empty afterwards, and otherwise leaves the number of click listeners
  as it was; no other step ever lowers that number.
\<close>

theorem document_listeners_attached_once:
  "docClick (run E acts) \<le> 1 \<and> docKeydown (run E acts) \<le> 1 \<and>
   docClick (run E (acts @ [OnUnmount i])) =
     (if fst (onUnmount E i (run E acts)) = Inr () \<and>
         allInstanceSetsEmpty (run E (acts @ [OnUnmount i]))
      then 0 else docClick (run E acts)) \<and>
   (\<not> isUnmount a \<longrightarrow> docClick (run E acts) \<le> docClick (run E (acts @ [a])))"
proof -
  have ok: "listenersOk (run E acts)" by (rule ok_run)
  then have a: "docClick (run E acts) \<le> 1 \<and> docKeydown (run E acts) \<le> 1"
    by (simp add: listenersOk_def)
  have b: "docClick (run E (acts @ [OnUnmount i])) =
     (if fst (onUnmount E i (run E acts)) = Inr () \<and>
         allInstanceSetsEmpty (run E (acts @ [OnUnmount i]))
      then 0 else docClick (run E acts))"
    using unmount_click [OF ok, of E i] by (simp add: run_append)
  have c: "\<not> isUnmount a \<longrightarrow> docClick (run E acts) \<le> docClick (run E (acts @ [a]))"
    by (simp add: run_append docClick_other_steps)
  show ?thesis using a b c by blast
qed

theorem document_listeners_attached_once_witness:
  "docClick (run pageEnv (mounted @ [OnMount 2, TimerFires])) = 1 \<and>
   docKeydown (run pageEnv (mounted @ [OnMount 2, TimerFires])) = 1 \<and>
   docClick (run pageEnv (mounted @ [OnMount 2, TimerFires, OnUnmount 1])) = 1 \<and>
   docClick (run pageEnv (mounted @ [OnMount 2, TimerFires, OnUnmount 1, OnUnmount 2])) = 0 \<and>
   \<not> isUnmount (OnMount 2 :: (string, string, string, nat) action) \<and>
   docClick (run pageEnv mounted) \<le> docClick (run pageEnv (mounted @ [OnMount 2]))"
proof -
  have a: "docClick (run pageEnv (mounted @ [OnMount 2, TimerFires])) = 1 \<and>
     docKeydown (run pageEnv (mounted @ [OnMount 2, TimerFires])) = 1 \<and>
     docClick (run pageEnv (mounted @ [OnMount 2, TimerFires, OnUnmount 1])) = 1 \<and>
     docClick (run pageEnv (mounted @ [OnMount 2, TimerFires, OnUnmount 1, OnUnmount 2])) = 0"
    by (simp add: run_append run_mounted listeners_eval)
  have u: "\<not> isUnmount (OnMount 2 :: (string, string, string, nat) action)" by simp
  show ?thesis
    using document_listeners_attached_once [of pageEnv mounted 1 "OnMount 2"] a u by simp
qed

text \<open>
  C9. Activating any instance, tracked before or not, makes it the focused one. In the
  listeners module \<^verbatim>\<open>_activate\<close> stores it in the focused pointer. In the store,
  \<^verbatim>\<open>activate\<close> leaves it as the last element of the array of instances, which is the
  element \<^verbatim>\<open>findBindingForEvent\<close> looks at first: the search answers with this
  instance if its binding matches, fails if looking at it fails, and goes on to the
  elements below only if its binding does not match.
\<close>

theorem activate_makes_focused:
  "focusedInstance (L_activate inst s) = inst \<and>
   instances2 (activate (One inst) st) \<noteq> [] \<and>
   last (instances2 (activate (One inst) st)) = inst \<and>
   findBindingForEvent E ev (activate (One inst) st) =
     (case instanceMatch E (activate (One inst) st) ev inst of
        Inl e \<Rightarrow> Inl e
      | Inr (Some f) \<Rightarrow> Inr (Some (f, inst))
      | Inr None \<Rightarrow>
          findLoop E (activate (One inst) st) ev (length (instances2 (activate (One inst) st)) - 1))"
proof -
  have a: "focusedInstance (L_activate inst s) = inst"
    by (simp add: L_activate_def L_bindKeys_def L_unbindKeys_def Let_def)
  obtain ys where ys: "instances2 (activate (One inst) st) = ys @ [inst]"
    by (simp add: activate_One activateOne_def)
  have b: "at_js (ys @ [inst]) (length ys) = inst" by (simp add: at_js_def)
  have c: "findBindingForEvent E ev (activate (One inst) st) =
     (case instanceMatch E (activate (One inst) st) ev inst of
        Inl e \<Rightarrow> Inl e
      | Inr (Some f) \<Rightarrow> Inr (Some (f, inst))
      | Inr None \<Rightarrow>
          findLoop E (activate (One inst) st) ev (length (instances2 (activate (One inst) st)) - 1))"
    using ys b by (simp add: findBindingForEvent_def Let_def split: sum.splits option.splits)
  show ?thesis using a ys c by simp
qed

theorem activate_makes_focused_witness:
  "focusedInstance (L_activate (Obj 7) (initListeners :: (string, string, nat) listeners)) = Obj 7 \<and>
   last (instances2 (activate (One (Obj 7)) boundStore)) = Obj 7 \<and>
   findBindingForEvent pageEnv pressA (activate (One (Obj 7)) boundStore) = Inr (Some (''f'', Obj 7))"
proof -
  have m: "instanceMatch pageEnv (activate (One (Obj 7)) boundStore) pressA (Obj 7) = Inr (Some ''f'')"
    by code_simp
  show ?thesis
    using activate_makes_focused
      [of "Obj 7" "initListeners :: (string, string, nat) listeners" boundStore pageEnv pressA] m
    by simp
qed

text \<open>
  C10. In the array-based store, \<^verbatim>\<open>isEmpty()\<close> answers true in every state, also
  right after an instance was activated and the array of instances is not empty: it
  negates \<^verbatim>\<open>_instances2.size\<close>, and a plain array has no such property.
\<close>

theorem isEmpty_always_true:
  "isEmpty s \<and> isEmpty (activate (One inst) s) \<and> instances2 (activate (One inst) s) \<noteq> []"
  by (simp add: isEmpty_def arrayProp_def activate_One activateOne_def)

end
